theory Spec2Isabelle
  imports Main "HOL-Library.Word"
begin

section \<open>Strings of the console\<close>

text \<open>
  A JavaScript string is a sequence of 16-bit code units. The console compares strings
  for equality, tests them for emptiness and trims them; nothing else looks inside.
  \<open>ascii\<close> writes a literal of the source whose characters are all ASCII.
\<close>

type_synonym jsstring = "16 word list"

definition ascii :: "string \<Rightarrow> jsstring" where
  "ascii s = map of_char s"

text \<open>
  \<open>String.prototype.trim\<close> strips the code units that ECMAScript calls WhiteSpace or
  LineTerminator from both ends: TAB, LF, VT, FF, CR, SP, NBSP, U+1680, U+2000 to U+200A,
  U+2028, U+2029, U+202F, U+205F, U+3000 and U+FEFF.
\<close>

definition isWhiteSpace :: "16 word \<Rightarrow> bool" where
  "isWhiteSpace c \<longleftrightarrow>
     c = 0x0009 \<or> c = 0x000A \<or> c = 0x000B \<or> c = 0x000C \<or> c = 0x000D \<or>
     c = 0x0020 \<or> c = 0x00A0 \<or> c = 0x1680 \<or> (0x2000 \<le> c \<and> c \<le> 0x200A) \<or>
     c = 0x2028 \<or> c = 0x2029 \<or> c = 0x202F \<or> c = 0x205F \<or> c = 0x3000 \<or>
     c = 0xFEFF"

definition trim :: "jsstring \<Rightarrow> jsstring" where
  "trim s = rev (dropWhile isWhiteSpace (rev (dropWhile isWhiteSpace s)))"

section \<open>Data model of \<open>src/app/page.tsx\<close>\<close>

text \<open>
  The types \<open>TalkingPoint\<close>, \<open>CallPlan\<close> and \<open>CallMessage\<close> of the source. The field
  \<open>id\<close> of a talking point is \<open>tp_id\<close> here and the fields of a message carry the
  prefix \<open>msg\<close>, since HOL has a constant \<open>id\<close> and two records cannot share a field
  name. \<open>timestamp\<close> is the integer \<open>Date.now()\<close> returns.
\<close>

datatype Emphasis = High | Medium | Low

record TalkingPoint =
  tp_id :: jsstring
  content :: jsstring
  emphasis :: Emphasis
  delivered :: bool

record CallPlan =
  phoneNumber :: jsstring
  purpose :: jsstring
  openingDisclosure :: jsstring
  talkingPoints :: "TalkingPoint list"
  clarifications :: "jsstring list"
  handoffConditions :: "jsstring list"
  additionalNotes :: jsstring

datatype Sender = NovaCall | Caller

record CallMessage =
  msg_id :: jsstring
  msg_sender :: Sender
  msg_content :: jsstring
  timestamp :: int

datatype CallStatus = Idle | Live | Handoff

text \<open>
  The state of \<open>HomePage\<close>: one field for each \<open>useState\<close> cell, with the source's
  names. \<open>handoffReason\<close> is \<open>string | null\<close>; \<open>clarificationsUsed\<close> starts at 0 and is
  only ever reset to 0 or incremented by one, so it is a natural number.
\<close>

record state =
  draftPlan :: CallPlan
  activePlan :: CallPlan
  callStatus :: CallStatus
  consentToSummarize :: bool
  summaryNotes :: jsstring
  callLog :: "CallMessage list"
  callerEntry :: jsstring
  clarificationsUsed :: nat
  recordingDisclosureMade :: bool
  handoffReason :: "jsstring option"

text \<open>
  \<open>makeId()\<close> and \<open>Date.now()\<close> read the outside world (a random generator and the
  clock). A handler that appends a message or a talking point calls each at most once,
  so it takes the two values it will read as an argument.
\<close>

record env =
  makeId :: jsstring
  dateNow :: int

text \<open>\<open>Partial<TalkingPoint>\<close>: each key is present (\<open>Some\<close>) or absent (\<open>None\<close>).\<close>

record PartialTalkingPoint =
  p_id :: "jsstring option"
  p_content :: "jsstring option"
  p_emphasis :: "Emphasis option"
  p_delivered :: "bool option"

text \<open>The object spread \<open>{ ...point, ...value }\<close>: a key of \<open>value\<close> wins where present.\<close>

definition spread :: "TalkingPoint \<Rightarrow> PartialTalkingPoint \<Rightarrow> TalkingPoint" where
  "spread point v =
     \<lparr> tp_id = (case p_id v of None \<Rightarrow> tp_id point | Some x \<Rightarrow> x),
       content = (case p_content v of None \<Rightarrow> content point | Some x \<Rightarrow> x),
       emphasis = (case p_emphasis v of None \<Rightarrow> emphasis point | Some x \<Rightarrow> x),
       delivered = (case p_delivered v of None \<Rightarrow> delivered point | Some x \<Rightarrow> x) \<rparr>"

text \<open>A key of \<open>CallPlan\<close> together with a value of that key's type.\<close>

datatype PlanField =
    PhoneNumber jsstring
  | Purpose jsstring
  | OpeningDisclosure jsstring
  | TalkingPoints "TalkingPoint list"
  | Clarifications "jsstring list"
  | HandoffConditions "jsstring list"
  | AdditionalNotes jsstring

section \<open>Derived values\<close>

text \<open>\<open>activePlan.talkingPoints.find((point) => !point.delivered)\<close>\<close>

definition nextTalkingPoint :: "state \<Rightarrow> TalkingPoint option" where
  "nextTalkingPoint s = find (\<lambda>point. \<not> delivered point) (talkingPoints (activePlan s))"

definition canUseClarification :: "state \<Rightarrow> bool" where
  "canUseClarification s \<longleftrightarrow> clarificationsUsed s < length (clarifications (activePlan s))"

definition completedTalkingPoints :: "state \<Rightarrow> nat" where
  "completedTalkingPoints s = length (filter delivered (talkingPoints (activePlan s)))"

section \<open>Plan editor handlers\<close>

fun handlePlanFieldChange :: "PlanField \<Rightarrow> state \<Rightarrow> state" where
  "handlePlanFieldChange (PhoneNumber v) s = s\<lparr>draftPlan := (draftPlan s)\<lparr>phoneNumber := v\<rparr>\<rparr>"
| "handlePlanFieldChange (Purpose v) s = s\<lparr>draftPlan := (draftPlan s)\<lparr>purpose := v\<rparr>\<rparr>"
| "handlePlanFieldChange (OpeningDisclosure v) s =
     s\<lparr>draftPlan := (draftPlan s)\<lparr>openingDisclosure := v\<rparr>\<rparr>"
| "handlePlanFieldChange (TalkingPoints v) s =
     s\<lparr>draftPlan := (draftPlan s)\<lparr>talkingPoints := v\<rparr>\<rparr>"
| "handlePlanFieldChange (Clarifications v) s =
     s\<lparr>draftPlan := (draftPlan s)\<lparr>clarifications := v\<rparr>\<rparr>"
| "handlePlanFieldChange (HandoffConditions v) s =
     s\<lparr>draftPlan := (draftPlan s)\<lparr>handoffConditions := v\<rparr>\<rparr>"
| "handlePlanFieldChange (AdditionalNotes v) s =
     s\<lparr>draftPlan := (draftPlan s)\<lparr>additionalNotes := v\<rparr>\<rparr>"

text \<open>
  \<open>prev.talkingPoints.map((point, idx) => idx === index ? { ...point, ...value } : point)\<close>.
  The callback sees every element with its position \<open>idx = 0, 1, ...\<close>; \<open>index\<close> is any
  integer, and one that is no position of the list equals no \<open>idx\<close>. (A number that is
  not an integer equals no \<open>idx\<close> either and behaves like an index out of range.)
\<close>

definition handleTalkingPointChange :: "int \<Rightarrow> PartialTalkingPoint \<Rightarrow> state \<Rightarrow> state" where
  "handleTalkingPointChange index v s =
     s\<lparr>draftPlan := (draftPlan s)\<lparr>talkingPoints :=
        map (\<lambda>(idx, point). if int idx = index then spread point v else point)
            (enumerate 0 (talkingPoints (draftPlan s)))\<rparr>\<rparr>"

definition addTalkingPoint :: "env \<Rightarrow> state \<Rightarrow> state" where
  "addTalkingPoint e s =
     s\<lparr>draftPlan := (draftPlan s)\<lparr>talkingPoints :=
        talkingPoints (draftPlan s) @
        [\<lparr> tp_id = makeId e, content = [], emphasis = Low, delivered = False \<rparr>]\<rparr>\<rparr>"

definition removeTalkingPoint :: "jsstring \<Rightarrow> state \<Rightarrow> state" where
  "removeTalkingPoint i s =
     s\<lparr>draftPlan := (draftPlan s)\<lparr>talkingPoints :=
        filter (\<lambda>point. tp_id point \<noteq> i) (talkingPoints (draftPlan s))\<rparr>\<rparr>"

definition handleHandoffConditionChange :: "int \<Rightarrow> jsstring \<Rightarrow> state \<Rightarrow> state" where
  "handleHandoffConditionChange index v s =
     s\<lparr>draftPlan := (draftPlan s)\<lparr>handoffConditions :=
        map (\<lambda>(idx, condition). if int idx = index then v else condition)
            (enumerate 0 (handoffConditions (draftPlan s)))\<rparr>\<rparr>"

definition addHandoffCondition :: "state \<Rightarrow> state" where
  "addHandoffCondition s =
     s\<lparr>draftPlan := (draftPlan s)\<lparr>handoffConditions := handoffConditions (draftPlan s) @ [[]]\<rparr>\<rparr>"

definition removeHandoffCondition :: "int \<Rightarrow> state \<Rightarrow> state" where
  "removeHandoffCondition index s =
     s\<lparr>draftPlan := (draftPlan s)\<lparr>handoffConditions :=
        map snd (filter (\<lambda>(idx, _). int idx \<noteq> index)
                        (enumerate 0 (handoffConditions (draftPlan s))))\<rparr>\<rparr>"

section \<open>Call session handlers\<close>

definition loadDraftToActive :: "state \<Rightarrow> state" where
  "loadDraftToActive s =
     s\<lparr> activePlan := (draftPlan s)\<lparr>talkingPoints :=
           map (\<lambda>point. point\<lparr>delivered := False\<rparr>) (talkingPoints (draftPlan s))\<rparr>,
        callStatus := Idle,
        callLog := [],
        callerEntry := [],
        clarificationsUsed := 0,
        consentToSummarize := False,
        summaryNotes := [],
        recordingDisclosureMade := False,
        handoffReason := None \<rparr>"

definition toggleTalkingPointDelivered :: "jsstring \<Rightarrow> state \<Rightarrow> state" where
  "toggleTalkingPointDelivered i s =
     s\<lparr>activePlan := (activePlan s)\<lparr>talkingPoints :=
        map (\<lambda>point. if tp_id point = i then point\<lparr>delivered := \<not> delivered point\<rparr> else point)
            (talkingPoints (activePlan s))\<rparr>\<rparr>"

definition pushLogEntry :: "env \<Rightarrow> Sender \<Rightarrow> jsstring \<Rightarrow> state \<Rightarrow> state" where
  "pushLogEntry e sndr c s =
     s\<lparr>callLog := callLog s @
        [\<lparr> msg_id = makeId e, msg_sender = sndr, msg_content = c, timestamp = dateNow e \<rparr>]\<rparr>"

text \<open>
  \<open>startCall\<close> reads \<open>activePlan.openingDisclosure\<close> from the rendered state. Its body
  has no test of \<open>callStatus\<close>.
\<close>

definition startCall :: "env \<Rightarrow> state \<Rightarrow> state" where
  "startCall e s =
     pushLogEntry e NovaCall (openingDisclosure (activePlan s)) (s\<lparr>callStatus := Live\<rparr>)"

definition respondWithNextPoint :: "env \<Rightarrow> state \<Rightarrow> state" where
  "respondWithNextPoint e s =
     (case nextTalkingPoint s of
        None \<Rightarrow> s
      | Some point \<Rightarrow>
          pushLogEntry e NovaCall (content point) (toggleTalkingPointDelivered (tp_id point) s))"

text \<open>\<open>!callerEntry.trim()\<close> holds exactly when the trimmed string is empty.\<close>

definition addCallerEntry :: "env \<Rightarrow> state \<Rightarrow> state" where
  "addCallerEntry e s =
     (if trim (callerEntry s) = [] then s
      else (pushLogEntry e Caller (trim (callerEntry s)) s)\<lparr>callerEntry := []\<rparr>)"

text \<open>
  The fallback prompt of \<open>useClarification\<close>,
  \<open>I'm assisting Manohar today\<emdash>could you share a little more?\<close>, whose dash is the code
  unit U+2014.
\<close>

definition fallbackClarification :: jsstring where
  "fallbackClarification =
     ascii ''I'' @ [0x27] @ ascii ''m assisting Manohar today'' @ [0x2014] @
     ascii ''could you share a little more?''"

text \<open>
  \<open>activePlan.clarifications[clarificationsUsed] ?? fallback\<close>: reading an array past its
  end gives \<open>undefined\<close>, which \<open>??\<close> replaces by the fallback.
\<close>

definition useClarification :: "env \<Rightarrow> state \<Rightarrow> state" where
  "useClarification e s =
     (if \<not> canUseClarification s then s
      else
        let clarification =
              (if clarificationsUsed s < length (clarifications (activePlan s))
               then clarifications (activePlan s) ! clarificationsUsed s
               else fallbackClarification)
        in (pushLogEntry e NovaCall clarification s)
             \<lparr>clarificationsUsed := clarificationsUsed s + 1\<rparr>)"

definition handoffAnnouncement :: jsstring where
  "handoffAnnouncement = ascii ''Let me connect you directly with Manohar.''"

definition executeHandoff :: "env \<Rightarrow> jsstring \<Rightarrow> state \<Rightarrow> state" where
  "executeHandoff e condition s =
     pushLogEntry e NovaCall handoffAnnouncement
       (s\<lparr>callStatus := Handoff, handoffReason := Some condition\<rparr>)"

text \<open>The bare \<open>useState\<close> setters that the console passes to its inputs.\<close>

definition setCallerEntry :: "jsstring \<Rightarrow> state \<Rightarrow> state" where
  "setCallerEntry v s = s\<lparr>callerEntry := v\<rparr>"

definition setConsentToSummarize :: "bool \<Rightarrow> state \<Rightarrow> state" where
  "setConsentToSummarize v s = s\<lparr>consentToSummarize := v\<rparr>"

definition setSummaryNotes :: "jsstring \<Rightarrow> state \<Rightarrow> state" where
  "setSummaryNotes v s = s\<lparr>summaryNotes := v\<rparr>"

definition setRecordingDisclosureMade :: "bool \<Rightarrow> state \<Rightarrow> state" where
  "setRecordingDisclosureMade v s = s\<lparr>recordingDisclosureMade := v\<rparr>"

section \<open>Operations and sequences of operations\<close>

text \<open>Every handler and setter that the page hands to a control, as one datatype.\<close>

datatype action =
    PlanFieldChange PlanField
  | TalkingPointChange int PartialTalkingPoint
  | AddTalkingPoint
  | RemoveTalkingPoint jsstring
  | HandoffConditionChange int jsstring
  | AddHandoffCondition
  | RemoveHandoffCondition int
  | LoadDraftToActive
  | ToggleTalkingPointDelivered jsstring
  | StartCall
  | RespondWithNextPoint
  | AddCallerEntry
  | UseClarification
  | ExecuteHandoff jsstring
  | SetCallerEntry jsstring
  | SetConsentToSummarize bool
  | SetSummaryNotes jsstring
  | SetRecordingDisclosureMade bool

fun perform :: "env \<Rightarrow> action \<Rightarrow> state \<Rightarrow> state" where
  "perform e (PlanFieldChange f) s = handlePlanFieldChange f s"
| "perform e (TalkingPointChange i v) s = handleTalkingPointChange i v s"
| "perform e AddTalkingPoint s = addTalkingPoint e s"
| "perform e (RemoveTalkingPoint i) s = removeTalkingPoint i s"
| "perform e (HandoffConditionChange i v) s = handleHandoffConditionChange i v s"
| "perform e AddHandoffCondition s = addHandoffCondition s"
| "perform e (RemoveHandoffCondition i) s = removeHandoffCondition i s"
| "perform e LoadDraftToActive s = loadDraftToActive s"
| "perform e (ToggleTalkingPointDelivered i) s = toggleTalkingPointDelivered i s"
| "perform e StartCall s = startCall e s"
| "perform e RespondWithNextPoint s = respondWithNextPoint e s"
| "perform e AddCallerEntry s = addCallerEntry e s"
| "perform e UseClarification s = useClarification e s"
| "perform e (ExecuteHandoff c) s = executeHandoff e c s"
| "perform e (SetCallerEntry v) s = setCallerEntry v s"
| "perform e (SetConsentToSummarize v) s = setConsentToSummarize v s"
| "perform e (SetSummaryNotes v) s = setSummaryNotes v s"
| "perform e (SetRecordingDisclosureMade v) s = setRecordingDisclosureMade v s"

text \<open>
  Operations run one at a time, each to completion on the state the previous one left.
\<close>

fun run :: "(env \<times> action) list \<Rightarrow> state \<Rightarrow> state" where
  "run [] s = s"
| "run ((e, a) # rest) s = run rest (perform e a s)"

text \<open>
  What the rendered console lets through. The start button has
  \<open>disabled={callStatus !== "idle"}\<close>, the clarification button
  \<open>disabled={!canUseClarification}\<close>, the summary text area
  \<open>disabled={!consentToSummarize}\<close>, and the respond button is rendered only while
  \<open>nextTalkingPoint\<close> is defined. A disabled or absent control fires no event, so the
  handler does not run and the state stays as it is.
\<close>

fun controlEnabled :: "action \<Rightarrow> state \<Rightarrow> bool" where
  "controlEnabled StartCall s = (callStatus s = Idle)"
| "controlEnabled UseClarification s = canUseClarification s"
| "controlEnabled (SetSummaryNotes v) s = consentToSummarize s"
| "controlEnabled RespondWithNextPoint s = (nextTalkingPoint s \<noteq> None)"
| "controlEnabled a s = True"

definition viaConsole :: "env \<Rightarrow> action \<Rightarrow> state \<Rightarrow> state" where
  "viaConsole e a s = (if controlEnabled a s then perform e a s else s)"

section \<open>The seeded plan and the initial state\<close>

text \<open>
  \<open>defaultPlan\<close> calls \<open>makeId()\<close> once for each of its three talking points; the three
  results are the arguments here. Both \<open>draftPlan\<close> and \<open>activePlan\<close> start as
  \<open>defaultPlan\<close>. The dash in the first clarification is the code unit U+2014.
\<close>

definition defaultPlan :: "jsstring \<Rightarrow> jsstring \<Rightarrow> jsstring \<Rightarrow> CallPlan" where
  "defaultPlan i1 i2 i3 =
     \<lparr> phoneNumber = ascii ''+1 (415) 555-0198'',
       purpose = ascii ''Follow up on AI/ML job application status'',
       openingDisclosure =
         ascii ''Hi, this is NovaCall supporting Manohar Kumar Sah. I'm calling regarding your recent AI/ML application with Manohar.'',
       talkingPoints =
         [ \<lparr> tp_id = i1,
             content = ascii ''Ask if they received Manohar's follow-up email summarizing the AI/ML role responsibilities.'',
             emphasis = High, delivered = False \<rparr>,
           \<lparr> tp_id = i2,
             content = ascii ''Confirm availability for a 20-minute technical alignment call later this week.'',
             emphasis = Medium, delivered = False \<rparr>,
           \<lparr> tp_id = i3,
             content = ascii ''Offer to share additional project highlights if they need more context before meeting.'',
             emphasis = Low, delivered = False \<rparr> ],
       clarifications =
         [ ascii ''I'm helping Manohar with scheduling so he can follow up promptly'' @ [0x2014] @
             ascii ''could you clarify your question?'',
           ascii ''I'm here to keep this brief for you. Could you share what specifically you'd like from Manohar?'' ],
       handoffConditions =
         [ ascii ''Caller requests to speak with Manohar directly.'',
           ascii ''Caller is silent for more than 5 seconds after a follow-up.'',
           ascii ''Caller asks for details beyond the provided briefing or legal commitments.'' ],
       additionalNotes =
         ascii ''Inform the caller if recording or summarizing and capture explicit approval before logging.'' \<rparr>"

definition initialState :: "jsstring \<Rightarrow> jsstring \<Rightarrow> jsstring \<Rightarrow> state" where
  "initialState i1 i2 i3 =
     \<lparr> draftPlan = defaultPlan i1 i2 i3,
       activePlan = defaultPlan i1 i2 i3,
       callStatus = Idle,
       consentToSummarize = False,
       summaryNotes = [],
       callLog = [],
       callerEntry = [],
       clarificationsUsed = 0,
       recordingDisclosureMade = False,
       handoffReason = None \<rparr>"

text \<open>Concrete values on which the theorems below are exercised.\<close>

definition seedState :: state where
  "seedState = initialState [0x61] [0x62] [0x63]"

definition envAt :: "nat \<Rightarrow> env" where
  "envAt n = \<lparr> makeId = [0x6D, of_nat n], dateNow = 1000 + int n \<rparr>"

section \<open>Vocabulary for statements about sequences\<close>

text \<open>
  These three are not handlers of the page; the theorems below use them to speak about
  repeated calls and about sequences of editor operations. \<open>calls a es\<close> is one call of
  \<open>a\<close> for each element of \<open>es\<close>, which supplies what that call reads from the outside
  world; \<open>removedIds\<close> lists the identifiers a sequence passes to \<open>removeTalkingPoint\<close>.
\<close>

definition calls :: "action \<Rightarrow> env list \<Rightarrow> (env \<times> action) list" where
  "calls a es = map (\<lambda>e. (e, a)) es"



section \<open>Auxiliary facts\<close>

lemma map_enumerate_update:
  "map (\<lambda>(idx, x). if int idx = index then f x else x) (enumerate 0 xs) =
     (if 0 \<le> index \<and> index < int (length xs) then xs[nat index := f (xs ! nat index)] else xs)"
  by (rule nth_equalityI) (auto simp: nth_enumerate_eq nth_list_update)

lemma dropWhile_all_iff: "(\<forall>x\<in>set (dropWhile P s). P x) \<longleftrightarrow> dropWhile P s = []"
proof
  assume h: "\<forall>x\<in>set (dropWhile P s). P x"
  show "dropWhile P s = []"
  proof (rule ccontr)
    assume n: "dropWhile P s \<noteq> []"
    then have "\<not> P (hd (dropWhile P s))" by (rule hd_dropWhile)
    moreover have "hd (dropWhile P s) \<in> set (dropWhile P s)" using n by simp
    ultimately show False using h by blast
  qed
qed (auto dest: set_dropWhileD)

lemma trim_empty_iff: "trim s = [] \<longleftrightarrow> list_all isWhiteSpace s"
  unfolding trim_def
  by (simp add: list_all_iff dropWhile_all_iff)

lemma seedState_status: "callStatus seedState = Idle"
  by (simp add: seedState_def initialState_def)

lemma seedState_consent: "\<not> consentToSummarize seedState"
  by (simp add: seedState_def initialState_def)

section \<open>Loading the draft\<close>

text \<open>
  C3. For every state, \<open>loadDraftToActive\<close> makes the active plan equal to the draft in
  every scalar field and in the identifier, content and emphasis of every talking point,
  in the same order, with every \<open>delivered\<close> flag false; it sets the status to idle,
  empties the log and the pending caller entry, sets the clarification counter to 0,
  consent and the recording disclosure to false, the summary to the empty string and the
  handoff reason to null. The draft itself is untouched.
\<close>

theorem load_resets_session:
  "phoneNumber (activePlan (loadDraftToActive s)) = phoneNumber (draftPlan s) \<and>
   purpose (activePlan (loadDraftToActive s)) = purpose (draftPlan s) \<and>
   openingDisclosure (activePlan (loadDraftToActive s)) = openingDisclosure (draftPlan s) \<and>
   clarifications (activePlan (loadDraftToActive s)) = clarifications (draftPlan s) \<and>
   handoffConditions (activePlan (loadDraftToActive s)) = handoffConditions (draftPlan s) \<and>
   additionalNotes (activePlan (loadDraftToActive s)) = additionalNotes (draftPlan s) \<and>
   map tp_id (talkingPoints (activePlan (loadDraftToActive s))) =
     map tp_id (talkingPoints (draftPlan s)) \<and>
   map content (talkingPoints (activePlan (loadDraftToActive s))) =
     map content (talkingPoints (draftPlan s)) \<and>
   map emphasis (talkingPoints (activePlan (loadDraftToActive s))) =
     map emphasis (talkingPoints (draftPlan s)) \<and>
   map delivered (talkingPoints (activePlan (loadDraftToActive s))) =
     replicate (length (talkingPoints (draftPlan s))) False \<and>
   callStatus (loadDraftToActive s) = Idle \<and>
   callLog (loadDraftToActive s) = [] \<and>
   clarificationsUsed (loadDraftToActive s) = 0 \<and>
   consentToSummarize (loadDraftToActive s) = False \<and>
   summaryNotes (loadDraftToActive s) = [] \<and>
   recordingDisclosureMade (loadDraftToActive s) = False \<and>
   handoffReason (loadDraftToActive s) = None \<and>
   callerEntry (loadDraftToActive s) = [] \<and>
   draftPlan (loadDraftToActive s) = draftPlan s"
  by (simp add: loadDraftToActive_def comp_def map_replicate_const)

section \<open>Summary notes and consent\<close>

text \<open>
  C9. For every state and every text, \<open>setSummaryNotes\<close> stores the text in
  \<open>summaryNotes\<close> and changes nothing else, whatever \<open>consentToSummarize\<close> is: running it
  on a state with the consent flag set to any \<open>b\<close> gives the same result as running it
  first and setting the flag afterwards. The only gate is the disabled text area: through
  the console the write happens when consent is true and nothing happens when it is false.
\<close>

theorem setSummaryNotes_not_gated:
  "summaryNotes (setSummaryNotes t s) = t \<and>
   setSummaryNotes t s = s\<lparr>summaryNotes := t\<rparr> \<and>
   setSummaryNotes t (s\<lparr>consentToSummarize := b\<rparr>) =
     (setSummaryNotes t s)\<lparr>consentToSummarize := b\<rparr> \<and>
   perform e (SetSummaryNotes t) s = setSummaryNotes t s \<and>
   (consentToSummarize s \<longrightarrow> viaConsole e (SetSummaryNotes t) s = setSummaryNotes t s) \<and>
   (\<not> consentToSummarize s \<longrightarrow> viaConsole e (SetSummaryNotes t) s = s)"
  by (simp add: setSummaryNotes_def viaConsole_def)

theorem setSummaryNotes_not_gated_witness:
  "\<not> consentToSummarize seedState \<and>
   summaryNotes (setSummaryNotes (ascii ''call back on Friday'') seedState) =
     ascii ''call back on Friday'' \<and>
   viaConsole (envAt 0) (SetSummaryNotes (ascii ''call back on Friday'')) seedState = seedState \<and>
   consentToSummarize (setConsentToSummarize True seedState) \<and>
   summaryNotes (viaConsole (envAt 0) (SetSummaryNotes (ascii ''call back on Friday''))
     (setConsentToSummarize True seedState)) = ascii ''call back on Friday''"
proof -
  have b: "consentToSummarize (setConsentToSummarize True seedState)"
    by (simp add: setConsentToSummarize_def)
  show ?thesis
    using seedState_consent b
      setSummaryNotes_not_gated [of "ascii ''call back on Friday''" seedState False "envAt 0"]
      setSummaryNotes_not_gated [of "ascii ''call back on Friday''"
        "setConsentToSummarize True seedState" False "envAt 0"]
    by metis
qed

section \<open>Toggling a talking point\<close>

lemma seed_ids: "map tp_id (talkingPoints (activePlan seedState)) = [[0x61], [0x62], [0x63]]"
  by (simp add: seedState_def initialState_def defaultPlan_def)

lemma seed_delivered: "map delivered (talkingPoints (activePlan seedState)) = [False, False, False]"
  by (simp add: seedState_def initialState_def defaultPlan_def)

text \<open>
  C10. For every state and every identifier, \<open>toggleTalkingPointDelivered\<close> applied twice
  gives the state back. One application changes nothing but the talking points of the
  active plan; there it keeps the identifiers, contents and emphases in their order,
  negates \<open>delivered\<close> on the points that carry the identifier and keeps it on the others,
  and leaves every point with another identifier as it was. Where the identifiers of the
  plan are pairwise distinct and the point at position \<open>k\<close> carries the identifier, the
  new list is the old one with only position \<open>k\<close> replaced.
\<close>

theorem toggle_involution:
  "toggleTalkingPointDelivered i (toggleTalkingPointDelivered i s) = s \<and>
   toggleTalkingPointDelivered i s =
     s\<lparr>activePlan := (activePlan s)\<lparr>talkingPoints :=
        talkingPoints (activePlan (toggleTalkingPointDelivered i s))\<rparr>\<rparr> \<and>
   map tp_id (talkingPoints (activePlan (toggleTalkingPointDelivered i s))) =
     map tp_id (talkingPoints (activePlan s)) \<and>
   map content (talkingPoints (activePlan (toggleTalkingPointDelivered i s))) =
     map content (talkingPoints (activePlan s)) \<and>
   map emphasis (talkingPoints (activePlan (toggleTalkingPointDelivered i s))) =
     map emphasis (talkingPoints (activePlan s)) \<and>
   map delivered (talkingPoints (activePlan (toggleTalkingPointDelivered i s))) =
     map (\<lambda>point. if tp_id point = i then \<not> delivered point else delivered point)
       (talkingPoints (activePlan s)) \<and>
   (\<forall>k < length (talkingPoints (activePlan s)).
      tp_id (talkingPoints (activePlan s) ! k) \<noteq> i \<longrightarrow>
      talkingPoints (activePlan (toggleTalkingPointDelivered i s)) ! k =
        talkingPoints (activePlan s) ! k) \<and>
   (\<forall>k < length (talkingPoints (activePlan s)).
      distinct (map tp_id (talkingPoints (activePlan s))) \<and>
      tp_id (talkingPoints (activePlan s) ! k) = i \<longrightarrow>
      talkingPoints (activePlan (toggleTalkingPointDelivered i s)) =
        (talkingPoints (activePlan s))
          [k := (talkingPoints (activePlan s) ! k)
                  \<lparr>delivered := \<not> delivered (talkingPoints (activePlan s) ! k)\<rparr>])"
proof -
  let ?tps = "talkingPoints (activePlan s)"
  let ?f = "\<lambda>point. if tp_id point = i then point\<lparr>delivered := \<not> delivered point\<rparr> else point"
  have tps': "talkingPoints (activePlan (toggleTalkingPointDelivered i s)) = map ?f ?tps"
    by (simp add: toggleTalkingPointDelivered_def)
  have 1: "toggleTalkingPointDelivered i (toggleTalkingPointDelivered i s) = s"
    by (simp add: toggleTalkingPointDelivered_def comp_def map_idI)
  have 2: "toggleTalkingPointDelivered i s =
     s\<lparr>activePlan := (activePlan s)\<lparr>talkingPoints :=
        talkingPoints (activePlan (toggleTalkingPointDelivered i s))\<rparr>\<rparr>"
    by (simp add: toggleTalkingPointDelivered_def)
  have 3: "map tp_id (map ?f ?tps) = map tp_id ?tps" "map content (map ?f ?tps) = map content ?tps"
    "map emphasis (map ?f ?tps) = map emphasis ?tps"
    "map delivered (map ?f ?tps) =
       map (\<lambda>point. if tp_id point = i then \<not> delivered point else delivered point) ?tps"
    by simp_all
  have 4: "\<forall>k < length ?tps. tp_id (?tps ! k) \<noteq> i \<longrightarrow> map ?f ?tps ! k = ?tps ! k"
    by simp
  have 5: "\<forall>k < length ?tps. distinct (map tp_id ?tps) \<and> tp_id (?tps ! k) = i \<longrightarrow>
      map ?f ?tps = ?tps[k := (?tps ! k)\<lparr>delivered := \<not> delivered (?tps ! k)\<rparr>]"
  proof (intro allI impI)
    fix k assume k: "k < length ?tps" and h: "distinct (map tp_id ?tps) \<and> tp_id (?tps ! k) = i"
    show "map ?f ?tps = ?tps[k := (?tps ! k)\<lparr>delivered := \<not> delivered (?tps ! k)\<rparr>]"
    proof (rule nth_equalityI)
      fix j assume j: "j < length (map ?f ?tps)"
      have "j \<noteq> k \<Longrightarrow> tp_id (?tps ! j) \<noteq> i"
        using h k j by (auto simp: distinct_conv_nth)
      then show "map ?f ?tps ! j = ?tps[k := (?tps ! k)\<lparr>delivered := \<not> delivered (?tps ! k)\<rparr>] ! j"
        using j k h by (cases "j = k") (simp_all add: nth_list_update)
    qed simp
  qed
  show ?thesis unfolding tps' using 1 2 3 4 5 unfolding tps' by blast
qed

theorem toggle_involution_witness:
  "distinct (map tp_id (talkingPoints (activePlan seedState))) \<and>
   1 < length (talkingPoints (activePlan seedState)) \<and>
   tp_id (talkingPoints (activePlan seedState) ! 1) = [0x62] \<and>
   tp_id (talkingPoints (activePlan seedState) ! 0) \<noteq> [0x62] \<and>
   toggleTalkingPointDelivered [0x62] (toggleTalkingPointDelivered [0x62] seedState) = seedState \<and>
   map delivered (talkingPoints (activePlan (toggleTalkingPointDelivered [0x62] seedState))) =
     [False, True, False] \<and>
   talkingPoints (activePlan (toggleTalkingPointDelivered [0x62] seedState)) ! 0 =
     talkingPoints (activePlan seedState) ! 0 \<and>
   talkingPoints (activePlan (toggleTalkingPointDelivered [0x62] seedState)) =
     (talkingPoints (activePlan seedState))
       [1 := (talkingPoints (activePlan seedState) ! 1)\<lparr>delivered := True\<rparr>]"
proof -
  let ?tps = "talkingPoints (activePlan seedState)"
  have len: "length ?tps = 3"
    using arg_cong [OF seed_ids, of length] by simp
  have d: "distinct (map tp_id ?tps)"
    by (simp add: seed_ids)
  have i1: "tp_id (?tps ! 1) = [0x62]"
    using arg_cong [OF seed_ids, of "\<lambda>xs. xs ! 1"] len by simp
  have i0: "tp_id (?tps ! 0) \<noteq> [0x62]"
    using arg_cong [OF seed_ids, of "\<lambda>xs. xs ! 0"] len by simp
  have d1: "\<not> delivered (?tps ! 1)"
    using arg_cong [OF seed_delivered, of "\<lambda>xs. xs ! 1"] len by simp
  have m: "map (\<lambda>point. if tp_id point = [0x62] then \<not> delivered point else delivered point) ?tps
           = [False, True, False]"
    by (simp add: seedState_def initialState_def defaultPlan_def)
  note t = toggle_involution [of "[0x62]" seedState]
  have a: "toggleTalkingPointDelivered [0x62] (toggleTalkingPointDelivered [0x62] seedState) = seedState"
    using t by blast
  have b: "map delivered (talkingPoints (activePlan (toggleTalkingPointDelivered [0x62] seedState))) =
     [False, True, False]"
    using t m by metis
  have c: "talkingPoints (activePlan (toggleTalkingPointDelivered [0x62] seedState)) ! 0 = ?tps ! 0"
    using t i0 len by simp
  have e: "talkingPoints (activePlan (toggleTalkingPointDelivered [0x62] seedState)) =
     ?tps[1 := (?tps ! 1)\<lparr>delivered := True\<rparr>]"
  proof -
    from t have q: "\<forall>k < length ?tps.
        distinct (map tp_id ?tps) \<and> tp_id (?tps ! k) = [0x62] \<longrightarrow>
        talkingPoints (activePlan (toggleTalkingPointDelivered [0x62] seedState)) =
          ?tps[k := (?tps ! k)\<lparr>delivered := \<not> delivered (?tps ! k)\<rparr>]"
      by blast
    show ?thesis using q [rule_format, of 1] d i1 d1 len by simp
  qed
  show ?thesis using len d i1 i0 a b c e by simp
qed

section \<open>Logging what the caller says\<close>

lemma trim_examples:
  "trim (ascii '''') = []" "trim (ascii ''   '') = []" "trim (ascii ''hello'') = ascii ''hello''"
  "trim (ascii ''  hello '') = ascii ''hello''"
  by (simp_all add: trim_def ascii_def isWhiteSpace_def)

lemma ascii_hello_nonempty: "ascii ''hello'' \<noteq> []"
  by (simp add: ascii_def)

lemma seed_entry_and_log: "callerEntry seedState = []" "callLog seedState = []"
  by (simp_all add: seedState_def initialState_def)

text \<open>
  C7. For every state, with \<open>text\<close> the pending caller entry: if \<open>trim text\<close> is empty,
  which is exactly when every code unit of the text is white space (so for the empty text
  and for three spaces), \<open>addCallerEntry\<close> returns the state unchanged, log included;
  otherwise it appends exactly one message, from the caller, whose content is the trimmed
  text, sets the pending entry to the empty string and changes nothing else. For the text
  \<open>hello\<close> the appended content is \<open>hello\<close>.
\<close>

theorem addCallerEntry_trimmed:
  "(trim (callerEntry s) = [] \<longrightarrow> addCallerEntry e s = s) \<and>
   (trim (callerEntry s) \<noteq> [] \<longrightarrow>
      addCallerEntry e s =
        s\<lparr>callLog := callLog s @
             [\<lparr> msg_id = makeId e, msg_sender = Caller,
                msg_content = trim (callerEntry s), timestamp = dateNow e \<rparr>],
          callerEntry := []\<rparr>) \<and>
   (trim (callerEntry s) = [] \<longleftrightarrow> list_all isWhiteSpace (callerEntry s)) \<and>
   addCallerEntry e (s\<lparr>callerEntry := ascii ''''\<rparr>) = s\<lparr>callerEntry := ascii ''''\<rparr> \<and>
   addCallerEntry e (s\<lparr>callerEntry := ascii ''   ''\<rparr>) = s\<lparr>callerEntry := ascii ''   ''\<rparr> \<and>
   addCallerEntry e (s\<lparr>callerEntry := ascii ''hello''\<rparr>) =
     s\<lparr>callLog := callLog s @
          [\<lparr> msg_id = makeId e, msg_sender = Caller,
             msg_content = ascii ''hello'', timestamp = dateNow e \<rparr>],
       callerEntry := []\<rparr>"
proof -
  have 1: "trim (callerEntry s) = [] \<longrightarrow> addCallerEntry e s = s"
    by (simp add: addCallerEntry_def)
  have 2: "trim (callerEntry s) \<noteq> [] \<longrightarrow>
      addCallerEntry e s =
        s\<lparr>callLog := callLog s @
             [\<lparr> msg_id = makeId e, msg_sender = Caller,
                msg_content = trim (callerEntry s), timestamp = dateNow e \<rparr>],
          callerEntry := []\<rparr>"
    by (simp add: addCallerEntry_def pushLogEntry_def)
  have 3: "trim (callerEntry s) = [] \<longleftrightarrow> list_all isWhiteSpace (callerEntry s)"
    by (rule trim_empty_iff)
  have 4: "addCallerEntry e (s\<lparr>callerEntry := ascii ''''\<rparr>) = s\<lparr>callerEntry := ascii ''''\<rparr>"
    by (simp add: addCallerEntry_def trim_examples)
  have 5: "addCallerEntry e (s\<lparr>callerEntry := ascii ''   ''\<rparr>) = s\<lparr>callerEntry := ascii ''   ''\<rparr>"
    by (simp add: addCallerEntry_def trim_examples)
  have 6: "addCallerEntry e (s\<lparr>callerEntry := ascii ''hello''\<rparr>) =
     s\<lparr>callLog := callLog s @
          [\<lparr> msg_id = makeId e, msg_sender = Caller,
             msg_content = ascii ''hello'', timestamp = dateNow e \<rparr>],
       callerEntry := []\<rparr>"
    by (simp add: addCallerEntry_def pushLogEntry_def trim_examples ascii_hello_nonempty)
  show ?thesis using 1 2 3 4 5 6 by blast
qed

theorem addCallerEntry_trimmed_witness:
  "trim (callerEntry (setCallerEntry (ascii ''  hello '') seedState)) \<noteq> [] \<and>
   callLog (addCallerEntry (envAt 0) (setCallerEntry (ascii ''  hello '') seedState)) =
     [\<lparr> msg_id = makeId (envAt 0), msg_sender = Caller,
        msg_content = ascii ''hello'', timestamp = dateNow (envAt 0) \<rparr>] \<and>
   callerEntry (addCallerEntry (envAt 0) (setCallerEntry (ascii ''  hello '') seedState)) = [] \<and>
   trim (callerEntry seedState) = [] \<and>
   addCallerEntry (envAt 0) seedState = seedState"
proof -
  let ?w = "setCallerEntry (ascii ''  hello '') seedState"
  have c: "callerEntry ?w = ascii ''  hello ''" "callLog ?w = []"
    by (simp_all add: setCallerEntry_def seed_entry_and_log)
  have t: "trim (callerEntry ?w) = ascii ''hello''"
    by (simp add: c trim_examples)
  have n: "trim (callerEntry ?w) \<noteq> []"
    by (simp add: t ascii_hello_nonempty)
  have z: "trim (callerEntry seedState) = []"
    by (simp add: seed_entry_and_log trim_def)
  note w = addCallerEntry_trimmed [of ?w "envAt 0"]
  note v = addCallerEntry_trimmed [of seedState "envAt 0"]
  have a: "addCallerEntry (envAt 0) ?w =
        ?w\<lparr>callLog := callLog ?w @
             [\<lparr> msg_id = makeId (envAt 0), msg_sender = Caller,
                msg_content = trim (callerEntry ?w), timestamp = dateNow (envAt 0) \<rparr>],
          callerEntry := []\<rparr>"
    using w n by blast
  have b: "addCallerEntry (envAt 0) seedState = seedState"
    using v z by blast
  have l: "callLog (addCallerEntry (envAt 0) ?w) =
     [\<lparr> msg_id = makeId (envAt 0), msg_sender = Caller,
        msg_content = ascii ''hello'', timestamp = dateNow (envAt 0) \<rparr>]"
    by (simp add: a c(2) t)
  have k: "callerEntry (addCallerEntry (envAt 0) ?w) = []"
    by (simp add: a)
  show ?thesis using n l k z b by blast
qed

section \<open>Editing a talking point of the draft\<close>

lemma seed_draft_len: "length (talkingPoints (draftPlan seedState)) = 3"
  by (simp add: seedState_def initialState_def defaultPlan_def)

text \<open>
  C8. \<open>handleTalkingPointChange\<close> is a total function with no error result. For an index
  that is negative or at least the number of talking points of the draft it returns the
  state unchanged. For an index in range it replaces the point at that position by the
  point merged with the given fields and leaves every other point, and the rest of the
  state, as it was; in the merged point a field that is given takes the given value and a
  field that is not given keeps its value.
\<close>

theorem handleTalkingPointChange_bounds:
  "(index < 0 \<or> int (length (talkingPoints (draftPlan s))) \<le> index \<longrightarrow>
      handleTalkingPointChange index v s = s) \<and>
   (0 \<le> index \<and> index < int (length (talkingPoints (draftPlan s))) \<longrightarrow>
      handleTalkingPointChange index v s =
        s\<lparr>draftPlan := (draftPlan s)\<lparr>talkingPoints :=
           (talkingPoints (draftPlan s))
             [nat index := spread (talkingPoints (draftPlan s) ! nat index) v]\<rparr>\<rparr>) \<and>
   (p_id v = None \<longrightarrow> tp_id (spread point v) = tp_id point) \<and>
   (p_content v = None \<longrightarrow> content (spread point v) = content point) \<and>
   (p_emphasis v = None \<longrightarrow> emphasis (spread point v) = emphasis point) \<and>
   (p_delivered v = None \<longrightarrow> delivered (spread point v) = delivered point) \<and>
   (\<forall>x. p_id v = Some x \<longrightarrow> tp_id (spread point v) = x) \<and>
   (\<forall>x. p_content v = Some x \<longrightarrow> content (spread point v) = x) \<and>
   (\<forall>x. p_emphasis v = Some x \<longrightarrow> emphasis (spread point v) = x) \<and>
   (\<forall>x. p_delivered v = Some x \<longrightarrow> delivered (spread point v) = x)"
proof -
  have 1: "index < 0 \<or> int (length (talkingPoints (draftPlan s))) \<le> index \<longrightarrow>
      handleTalkingPointChange index v s = s"
    by (auto simp: handleTalkingPointChange_def map_enumerate_update)
  have 2: "0 \<le> index \<and> index < int (length (talkingPoints (draftPlan s))) \<longrightarrow>
      handleTalkingPointChange index v s =
        s\<lparr>draftPlan := (draftPlan s)\<lparr>talkingPoints :=
           (talkingPoints (draftPlan s))
             [nat index := spread (talkingPoints (draftPlan s) ! nat index) v]\<rparr>\<rparr>"
    by (simp add: handleTalkingPointChange_def map_enumerate_update)
  have 3: "(p_id v = None \<longrightarrow> tp_id (spread point v) = tp_id point) \<and>
   (p_content v = None \<longrightarrow> content (spread point v) = content point) \<and>
   (p_emphasis v = None \<longrightarrow> emphasis (spread point v) = emphasis point) \<and>
   (p_delivered v = None \<longrightarrow> delivered (spread point v) = delivered point) \<and>
   (\<forall>x. p_id v = Some x \<longrightarrow> tp_id (spread point v) = x) \<and>
   (\<forall>x. p_content v = Some x \<longrightarrow> content (spread point v) = x) \<and>
   (\<forall>x. p_emphasis v = Some x \<longrightarrow> emphasis (spread point v) = x) \<and>
   (\<forall>x. p_delivered v = Some x \<longrightarrow> delivered (spread point v) = x)"
    by (simp add: spread_def)
  show ?thesis using 1 2 3 by blast
qed

theorem handleTalkingPointChange_bounds_witness:
  "int (length (talkingPoints (draftPlan seedState))) \<le> 3 \<and>
   handleTalkingPointChange 3
     \<lparr>p_id = None, p_content = Some (ascii ''Ask about the start date.''),
      p_emphasis = None, p_delivered = None\<rparr> seedState = seedState \<and>
   handleTalkingPointChange (- 1)
     \<lparr>p_id = None, p_content = Some (ascii ''Ask about the start date.''),
      p_emphasis = None, p_delivered = None\<rparr> seedState = seedState \<and>
   1 < int (length (talkingPoints (draftPlan seedState))) \<and>
   talkingPoints (draftPlan (handleTalkingPointChange 1
     \<lparr>p_id = None, p_content = Some (ascii ''Ask about the start date.''),
      p_emphasis = None, p_delivered = None\<rparr> seedState)) =
     (talkingPoints (draftPlan seedState))
       [1 := spread (talkingPoints (draftPlan seedState) ! 1)
          \<lparr>p_id = None, p_content = Some (ascii ''Ask about the start date.''),
           p_emphasis = None, p_delivered = None\<rparr>] \<and>
   content (spread (talkingPoints (draftPlan seedState) ! 1)
     \<lparr>p_id = None, p_content = Some (ascii ''Ask about the start date.''),
      p_emphasis = None, p_delivered = None\<rparr>) = ascii ''Ask about the start date.'' \<and>
   emphasis (spread (talkingPoints (draftPlan seedState) ! 1)
     \<lparr>p_id = None, p_content = Some (ascii ''Ask about the start date.''),
      p_emphasis = None, p_delivered = None\<rparr>) = emphasis (talkingPoints (draftPlan seedState) ! 1)"
proof -
  let ?v = "\<lparr>p_id = None, p_content = Some (ascii ''Ask about the start date.''),
      p_emphasis = None, p_delivered = None\<rparr>"
  let ?tps = "talkingPoints (draftPlan seedState)"
  note len = seed_draft_len
  have a: "handleTalkingPointChange 3 ?v seedState = seedState"
    using handleTalkingPointChange_bounds [of 3 seedState ?v] len by simp
  have b: "handleTalkingPointChange (- 1) ?v seedState = seedState"
    using handleTalkingPointChange_bounds [of "- 1" seedState ?v] by simp
  have c: "talkingPoints (draftPlan (handleTalkingPointChange 1 ?v seedState)) =
     ?tps[1 := spread (?tps ! 1) ?v]"
    using handleTalkingPointChange_bounds [of 1 seedState ?v] len by simp
  have d: "content (spread (?tps ! 1) ?v) = ascii ''Ask about the start date.''"
    using handleTalkingPointChange_bounds [of 1 seedState ?v "?tps ! 1"] by simp
  have e: "emphasis (spread (?tps ! 1) ?v) = emphasis (?tps ! 1)"
    using handleTalkingPointChange_bounds [of 1 seedState ?v "?tps ! 1"] by simp
  show ?thesis using len a b c d e by simp
qed

section \<open>Starting the call\<close>

lemma startCall_status: "callStatus (startCall e s) = Live"
  by (simp add: startCall_def pushLogEntry_def)

lemma startCall_log:
  "callLog (startCall e s) = callLog s @
     [\<lparr> msg_id = makeId e, msg_sender = NovaCall,
        msg_content = openingDisclosure (activePlan s), timestamp = dateNow e \<rparr>]"
  by (simp add: startCall_def pushLogEntry_def)

lemma executeHandoff_status: "callStatus (executeHandoff e c s) = Handoff"
  by (simp add: executeHandoff_def pushLogEntry_def)

text \<open>
  C1 as stated fails: on a live call, \<open>startCall\<close> itself is not a no-op. It appends
  another opening disclosure to the log.
\<close>

theorem startCall_live_counterexample:
  "callStatus (startCall (envAt 0) seedState) \<noteq> Idle \<and>
   callStatus (startCall (envAt 0) seedState) = Live \<and>
   startCall (envAt 1) (startCall (envAt 0) seedState) \<noteq> startCall (envAt 0) seedState \<and>
   length (callLog (startCall (envAt 1) (startCall (envAt 0) seedState))) =
     Suc (length (callLog (startCall (envAt 0) seedState)))"
proof -
  let ?s = "startCall (envAt 0) seedState"
  have "length (callLog (startCall (envAt 1) ?s)) = Suc (length (callLog ?s))"
    by (simp add: startCall_log)
  moreover from this have "startCall (envAt 1) ?s \<noteq> ?s"
    by (metis n_not_Suc_n)
  ultimately show ?thesis by (simp add: startCall_status)
qed

text \<open>
  C1, as amended. \<open>startCall\<close> has no guard of its own: in every status it sets the status
  to live and appends exactly one message from the system agent whose content is the
  active plan's opening disclosure, and changes nothing else. The guard is the start
  button, which is disabled unless the status is idle: through the console a start request
  in status live or handoff leaves the whole state unchanged, and in status idle it runs
  \<open>startCall\<close>.
\<close>

theorem startCall_guard_is_the_button:
  "startCall e s =
     s\<lparr>callStatus := Live,
       callLog := callLog s @
         [\<lparr> msg_id = makeId e, msg_sender = NovaCall,
            msg_content = openingDisclosure (activePlan s), timestamp = dateNow e \<rparr>]\<rparr> \<and>
   perform e StartCall s = startCall e s \<and>
   (callStatus s \<noteq> Idle \<longrightarrow> viaConsole e StartCall s = s) \<and>
   (callStatus s = Idle \<longrightarrow> viaConsole e StartCall s = startCall e s)"
  by (simp add: startCall_def pushLogEntry_def viaConsole_def)

theorem startCall_guard_is_the_button_witness:
  "callStatus seedState = Idle \<and>
   callStatus (viaConsole (envAt 0) StartCall seedState) = Live \<and>
   callLog (viaConsole (envAt 0) StartCall seedState) =
     [\<lparr> msg_id = makeId (envAt 0), msg_sender = NovaCall,
        msg_content = openingDisclosure (activePlan seedState), timestamp = dateNow (envAt 0) \<rparr>] \<and>
   callStatus (startCall (envAt 0) seedState) \<noteq> Idle \<and>
   viaConsole (envAt 1) StartCall (startCall (envAt 0) seedState) = startCall (envAt 0) seedState"
proof -
  let ?s = "startCall (envAt 0) seedState"
  have v: "viaConsole (envAt 0) StartCall seedState = ?s"
    using startCall_guard_is_the_button [of "envAt 0" seedState] seedState_status by blast
  have n: "callStatus ?s \<noteq> Idle"
    by (simp add: startCall_status)
  have w: "viaConsole (envAt 1) StartCall ?s = ?s"
    using startCall_guard_is_the_button [of "envAt 1" ?s] n by blast
  have l: "callLog ?s =
     [\<lparr> msg_id = makeId (envAt 0), msg_sender = NovaCall,
        msg_content = openingDisclosure (activePlan seedState), timestamp = dateNow (envAt 0) \<rparr>]"
    by (simp add: startCall_log seed_entry_and_log)
  show ?thesis using seedState_status v n w l by (simp add: startCall_status)
qed

section \<open>Leaving the handoff status\<close>

lemma handlePlanFieldChange_status: "callStatus (handlePlanFieldChange f s) = callStatus s"
  by (cases f) simp_all

lemma perform_status:
  "a \<noteq> LoadDraftToActive \<Longrightarrow> a \<noteq> StartCall \<Longrightarrow> (\<forall>c. a \<noteq> ExecuteHandoff c) \<Longrightarrow>
   callStatus (perform e a s) = callStatus s"
  by (cases a)
     (simp_all add: handlePlanFieldChange_status handleTalkingPointChange_def addTalkingPoint_def
        removeTalkingPoint_def handleHandoffConditionChange_def addHandoffCondition_def
        removeHandoffCondition_def toggleTalkingPointDelivered_def respondWithNextPoint_def
        addCallerEntry_def useClarification_def pushLogEntry_def setCallerEntry_def
        setConsentToSummarize_def setSummaryNotes_def setRecordingDisclosureMade_def Let_def
        split: option.splits)

text \<open>
  C2 as stated fails: from a state in status handoff, the operation \<open>startCall\<close> moves
  the status to live.
\<close>

theorem handoff_left_by_startCall_counterexample:
  "callStatus (executeHandoff (envAt 1) (ascii ''Caller requests to speak with Manohar directly.'')
      (startCall (envAt 0) seedState)) = Handoff \<and>
   callStatus (perform (envAt 2) StartCall
     (executeHandoff (envAt 1) (ascii ''Caller requests to speak with Manohar directly.'')
        (startCall (envAt 0) seedState))) = Live"
  by (simp add: startCall_status executeHandoff_status)

text \<open>
  C2, as amended. From a state in status handoff, every operation other than
  \<open>loadDraftToActive\<close> and \<open>startCall\<close> leaves the status handoff; through the console,
  where the start button is disabled, every operation other than \<open>loadDraftToActive\<close>
  leaves it handoff; \<open>loadDraftToActive\<close> sets it to idle.
\<close>

theorem handoff_terminal_but_for_load:
  "callStatus s = Handoff \<Longrightarrow>
   (a \<noteq> LoadDraftToActive \<and> a \<noteq> StartCall \<longrightarrow> callStatus (perform e a s) = Handoff) \<and>
   (a \<noteq> LoadDraftToActive \<longrightarrow> callStatus (viaConsole e a s) = Handoff) \<and>
   callStatus (perform e LoadDraftToActive s) = Idle \<and>
   callStatus (viaConsole e LoadDraftToActive s) = Idle"
proof -
  assume h: "callStatus s = Handoff"
  have 1: "a \<noteq> LoadDraftToActive \<and> a \<noteq> StartCall \<longrightarrow> callStatus (perform e a s) = Handoff"
  proof (cases "\<exists>c. a = ExecuteHandoff c")
    case True
    then show ?thesis by (auto simp: executeHandoff_status)
  next
    case False
    then show ?thesis using h perform_status [of a e s] by auto
  qed
  have 2: "a \<noteq> LoadDraftToActive \<longrightarrow> callStatus (viaConsole e a s) = Handoff"
  proof (cases "a = StartCall")
    case True
    then show ?thesis using h by (simp add: viaConsole_def)
  next
    case False
    then show ?thesis using 1 h by (simp add: viaConsole_def)
  qed
  have 3: "callStatus (perform e LoadDraftToActive s) = Idle"
    by (simp add: loadDraftToActive_def)
  have 4: "callStatus (viaConsole e LoadDraftToActive s) = Idle"
    by (simp add: viaConsole_def loadDraftToActive_def)
  show ?thesis using 1 2 3 4 by blast
qed

theorem handoff_terminal_but_for_load_witness:
  "callStatus (executeHandoff (envAt 1) (ascii ''Caller requests to speak with Manohar directly.'')
      (startCall (envAt 0) seedState)) = Handoff \<and>
   callStatus (perform (envAt 2) UseClarification
     (executeHandoff (envAt 1) (ascii ''Caller requests to speak with Manohar directly.'')
        (startCall (envAt 0) seedState))) = Handoff \<and>
   callStatus (viaConsole (envAt 2) StartCall
     (executeHandoff (envAt 1) (ascii ''Caller requests to speak with Manohar directly.'')
        (startCall (envAt 0) seedState))) = Handoff \<and>
   callStatus (perform (envAt 2) LoadDraftToActive
     (executeHandoff (envAt 1) (ascii ''Caller requests to speak with Manohar directly.'')
        (startCall (envAt 0) seedState))) = Idle"
proof -
  let ?hs = "executeHandoff (envAt 1) (ascii ''Caller requests to speak with Manohar directly.'')
      (startCall (envAt 0) seedState)"
  have h: "callStatus ?hs = Handoff"
    by (rule executeHandoff_status)
  show ?thesis
    using h handoff_terminal_but_for_load [OF h, of UseClarification "envAt 2"]
      handoff_terminal_but_for_load [OF h, of StartCall "envAt 2"]
    by simp
qed

section \<open>The clarification budget\<close>



lemma run_append: "run (xs @ ys) s = run ys (run xs s)"
  by (induction xs arbitrary: s) auto








lemma zip_take_first: "zip (take k es) cl = take k (zip es cl)"
proof (induction es arbitrary: k cl)
  case Nil
  show ?case by simp
next
  case (Cons a es)
  show ?case by (cases k; cases cl) (simp_all add: Cons.IH)
qed





section \<open>Adding and removing talking points of the draft\<close>











section \<open>Responding with the next talking point\<close>

lemma find_after_delivered:
  "list_all delivered ds \<Longrightarrow> \<not> delivered p \<Longrightarrow>
   find (\<lambda>point. \<not> delivered point) (ds @ p # rest) = Some p"
  by (induction ds) simp_all

lemma find_all_delivered:
  "list_all delivered tps \<Longrightarrow> find (\<lambda>point. \<not> delivered point) tps = None"
  by (induction tps) simp_all

lemma toggle_unique:
  assumes "distinct (map tp_id (ds @ p # rest))"
  shows "map (\<lambda>point. if tp_id point = tp_id p then point\<lparr>delivered := \<not> delivered point\<rparr> else point)
           (ds @ p # rest) = ds @ p\<lparr>delivered := \<not> delivered p\<rparr> # rest"
proof -
  have "\<forall>q \<in> set ds \<union> set rest. tp_id q \<noteq> tp_id p"
    using assms by (fastforce simp: image_iff)
  then show ?thesis by (simp add: map_idI)
qed

lemma respond_step:
  assumes "talkingPoints (activePlan s) = ds @ p # rest"
    and "list_all delivered ds" and "\<not> delivered p"
    and "distinct (map tp_id (talkingPoints (activePlan s)))"
  shows "respondWithNextPoint e s =
     s\<lparr>activePlan := (activePlan s)\<lparr>talkingPoints := ds @ p\<lparr>delivered := True\<rparr> # rest\<rparr>,
       callLog := callLog s @
         [\<lparr> msg_id = makeId e, msg_sender = NovaCall,
            msg_content = content p, timestamp = dateNow e \<rparr>]\<rparr>"
proof -
  have n: "nextTalkingPoint s = Some p"
    using assms(1-3) by (simp add: nextTalkingPoint_def find_after_delivered)
  have d: "distinct (map tp_id (ds @ p # rest))"
    using assms(1,4) by simp
  have t: "toggleTalkingPointDelivered (tp_id p) s =
     s\<lparr>activePlan := (activePlan s)\<lparr>talkingPoints := ds @ p\<lparr>delivered := True\<rparr> # rest\<rparr>\<rparr>"
    unfolding toggleTalkingPointDelivered_def assms(1) toggle_unique [OF d]
    using assms(3) by simp
  show ?thesis
    by (simp add: respondWithNextPoint_def n t pushLogEntry_def)
qed

lemma respond_done:
  "list_all delivered (talkingPoints (activePlan s)) \<Longrightarrow> respondWithNextPoint e s = s"
  by (simp add: respondWithNextPoint_def nextTalkingPoint_def find_all_delivered)

lemma run_respond:
  "talkingPoints (activePlan s) = ds @ us \<Longrightarrow> list_all delivered ds \<Longrightarrow>
   list_all (\<lambda>point. \<not> delivered point) us \<Longrightarrow>
   distinct (map tp_id (talkingPoints (activePlan s))) \<Longrightarrow> length es \<le> length us \<Longrightarrow>
   run (calls RespondWithNextPoint es) s =
     s\<lparr>activePlan := (activePlan s)\<lparr>talkingPoints :=
          ds @ map (\<lambda>point. point\<lparr>delivered := True\<rparr>) (take (length es) us) @
          drop (length es) us\<rparr>,
       callLog := callLog s @
         map (\<lambda>(e, point). \<lparr> msg_id = makeId e, msg_sender = NovaCall,
                              msg_content = content point, timestamp = dateNow e \<rparr>)
           (zip es us)\<rparr>"
proof (induction es arbitrary: s ds us)
  case Nil
  then show ?case by (simp add: calls_def)
next
  case (Cons e es)
  then obtain p rest where us: "us = p # rest" by (cases us) auto
  let ?p' = "p\<lparr>delivered := True\<rparr>"
  let ?s' = "respondWithNextPoint e s"
  have s': "?s' = s\<lparr>activePlan := (activePlan s)\<lparr>talkingPoints := ds @ ?p' # rest\<rparr>,
       callLog := callLog s @
         [\<lparr> msg_id = makeId e, msg_sender = NovaCall,
            msg_content = content p, timestamp = dateNow e \<rparr>]\<rparr>"
    using Cons.prems us by (intro respond_step) simp_all
  have a: "talkingPoints (activePlan ?s') = (ds @ [?p']) @ rest"
    by (simp add: s')
  have b: "list_all delivered (ds @ [?p'])"
    using Cons.prems(2) by simp
  have c: "list_all (\<lambda>point. \<not> delivered point) rest"
    using Cons.prems(3) us by simp
  have d: "distinct (map tp_id (talkingPoints (activePlan ?s')))"
    using Cons.prems(1,4) us by (simp add: s')
  have l: "length es \<le> length rest"
    using Cons.prems(5) us by simp
  have "run (calls RespondWithNextPoint (e # es)) s = run (calls RespondWithNextPoint es) ?s'"
    by (simp add: calls_def)
  also note Cons.IH [OF a b c d l]
  finally show ?case by (simp add: s' us)
qed

lemma calls_snoc: "k < length es \<Longrightarrow> calls a (take (Suc k) es) = calls a (take k es) @ [(es ! k, a)]"
  by (simp add: calls_def take_Suc_conv_app_nth)

lemma deliver_prefix_update:
  "k < length xs \<Longrightarrow>
   map f (take (Suc k) xs) @ drop (Suc k) xs = (map f (take k xs) @ drop k xs)[k := f (xs ! k)]"
  by (simp add: take_Suc_conv_app_nth list_update_append Cons_nth_drop_Suc [symmetric])

lemma seed_undelivered: "list_all (\<lambda>point. \<not> delivered point) (talkingPoints (activePlan seedState))"
  by (simp add: seedState_def initialState_def defaultPlan_def)

lemma seed_active_len: "length (talkingPoints (activePlan seedState)) = 3"
  by (simp add: seedState_def initialState_def defaultPlan_def)

lemma shared_id_points:
  "talkingPoints (activePlan (loadDraftToActive (handleTalkingPointChange 1
      \<lparr>p_id = Some [0x61], p_content = None, p_emphasis = None, p_delivered = None\<rparr>
      seedState))) =
   [\<lparr> tp_id = [0x61], content = content (talkingPoints (activePlan seedState) ! 0),
       emphasis = High, delivered = False \<rparr>,
    \<lparr> tp_id = [0x61], content = content (talkingPoints (activePlan seedState) ! 1),
       emphasis = Medium, delivered = False \<rparr>,
    \<lparr> tp_id = [0x63], content = content (talkingPoints (activePlan seedState) ! 2),
       emphasis = Low, delivered = False \<rparr>]"
  by (simp add: loadDraftToActive_def handleTalkingPointChange_def map_enumerate_update
      spread_def seedState_def initialState_def defaultPlan_def)

lemma shared_id_log:
  "callLog (loadDraftToActive (handleTalkingPointChange 1
      \<lparr>p_id = Some [0x61], p_content = None, p_emphasis = None, p_delivered = None\<rparr>
      seedState)) = []"
  by (simp add: loadDraftToActive_def)

text \<open>
  C4 as stated fails. Giving the second seeded point the identifier of the first in the
  draft and loading it yields an active plan of three undelivered points, two of which
  share an identifier. The first call of \<open>respondWithNextPoint\<close> marks both of them, and
  three calls log only the contents of the first and the third point: the second point
  is marked delivered without ever being logged.
\<close>

theorem respondWithNextPoint_shared_id_counterexample:
  "list_all (\<lambda>point. \<not> delivered point)
     (talkingPoints (activePlan (loadDraftToActive (handleTalkingPointChange 1
        \<lparr>p_id = Some [0x61], p_content = None, p_emphasis = None, p_delivered = None\<rparr>
        seedState)))) \<and>
   length (talkingPoints (activePlan (loadDraftToActive (handleTalkingPointChange 1
        \<lparr>p_id = Some [0x61], p_content = None, p_emphasis = None, p_delivered = None\<rparr>
        seedState)))) = 3 \<and>
   map delivered (talkingPoints (activePlan (respondWithNextPoint (envAt 10)
     (loadDraftToActive (handleTalkingPointChange 1
        \<lparr>p_id = Some [0x61], p_content = None, p_emphasis = None, p_delivered = None\<rparr>
        seedState))))) = [True, True, False] \<and>
   map msg_content (callLog (run (calls RespondWithNextPoint [envAt 10, envAt 11, envAt 12])
     (loadDraftToActive (handleTalkingPointChange 1
        \<lparr>p_id = Some [0x61], p_content = None, p_emphasis = None, p_delivered = None\<rparr>
        seedState)))) =
     [content (talkingPoints (activePlan seedState) ! 0),
      content (talkingPoints (activePlan seedState) ! 2)]"
proof -
  let ?st = "loadDraftToActive (handleTalkingPointChange 1
        \<lparr>p_id = Some [0x61], p_content = None, p_emphasis = None, p_delivered = None\<rparr>
        seedState)"
  note p = shared_id_points
  have a: "list_all (\<lambda>point. \<not> delivered point) (talkingPoints (activePlan ?st))"
    by (simp add: p)
  have b: "length (talkingPoints (activePlan ?st)) = 3"
    by (simp add: p)
  have c: "map delivered (talkingPoints (activePlan (respondWithNextPoint (envAt 10) ?st))) =
      [True, True, False]"
    by (simp add: respondWithNextPoint_def nextTalkingPoint_def toggleTalkingPointDelivered_def
        pushLogEntry_def p)
  have d: "map msg_content (callLog (run (calls RespondWithNextPoint [envAt 10, envAt 11, envAt 12])
      ?st)) =
     [content (talkingPoints (activePlan seedState) ! 0),
      content (talkingPoints (activePlan seedState) ! 2)]"
    by (simp add: calls_def respondWithNextPoint_def nextTalkingPoint_def
        toggleTalkingPointDelivered_def pushLogEntry_def p shared_id_log)
  show ?thesis using a b c d by blast
qed

text \<open>
  C4, as amended. Take a state whose active plan has \<open>N\<close> talking points, none delivered,
  with pairwise distinct identifiers, and \<open>N\<close> calls of \<open>respondWithNextPoint\<close>. After the
  first \<open>k\<close> calls (\<open>k \<le> N\<close>) exactly the first \<open>k\<close> points are delivered, the log has
  grown by one message from the system agent for each of them, in plan order and with the
  point's content, and nothing else has changed. The call number \<open>k + 1\<close> changes only the
  point at position \<open>k\<close> (counting from 0), which becomes delivered, and appends one
  message with that point's content. A further call after all \<open>N\<close> returns the state
  unchanged, and the completed count is then \<open>N\<close>.
\<close>

theorem respondWithNextPoint_in_plan_order:
  assumes "list_all (\<lambda>point. \<not> delivered point) (talkingPoints (activePlan s))"
    and "distinct (map tp_id (talkingPoints (activePlan s)))"
    and "length es = length (talkingPoints (activePlan s))"
  shows
  "(\<forall>k \<le> length es.
      run (calls RespondWithNextPoint (take k es)) s =
        s\<lparr>activePlan := (activePlan s)\<lparr>talkingPoints :=
             map (\<lambda>point. point\<lparr>delivered := True\<rparr>) (take k (talkingPoints (activePlan s))) @
             drop k (talkingPoints (activePlan s))\<rparr>,
          callLog := callLog s @
            map (\<lambda>(e, point). \<lparr> msg_id = makeId e, msg_sender = NovaCall,
                                 msg_content = content point, timestamp = dateNow e \<rparr>)
              (take k (zip es (talkingPoints (activePlan s))))\<rparr>) \<and>
   (\<forall>k < length es.
      respondWithNextPoint (es ! k) (run (calls RespondWithNextPoint (take k es)) s) =
        (run (calls RespondWithNextPoint (take k es)) s)
          \<lparr>activePlan := (activePlan (run (calls RespondWithNextPoint (take k es)) s))
             \<lparr>talkingPoints :=
                (talkingPoints (activePlan (run (calls RespondWithNextPoint (take k es)) s)))
                  [k := (talkingPoints (activePlan s) ! k)\<lparr>delivered := True\<rparr>]\<rparr>,
           callLog := callLog (run (calls RespondWithNextPoint (take k es)) s) @
             [\<lparr> msg_id = makeId (es ! k), msg_sender = NovaCall,
                msg_content = content (talkingPoints (activePlan s) ! k),
                timestamp = dateNow (es ! k) \<rparr>]\<rparr>) \<and>
   respondWithNextPoint e (run (calls RespondWithNextPoint es) s) =
     run (calls RespondWithNextPoint es) s \<and>
   completedTalkingPoints (run (calls RespondWithNextPoint es) s) =
     length (talkingPoints (activePlan s))"
proof -
  let ?tps = "talkingPoints (activePlan s)"
  let ?on = "\<lambda>point. point\<lparr>delivered := True\<rparr>"
  let ?msg = "\<lambda>(e, point). \<lparr> msg_id = makeId e, msg_sender = NovaCall,
                               msg_content = content point, timestamp = dateNow e \<rparr>"
  let ?after = "\<lambda>k. run (calls RespondWithNextPoint (take k es)) s"
  have prefix: "?after k =
        s\<lparr>activePlan := (activePlan s)\<lparr>talkingPoints := map ?on (take k ?tps) @ drop k ?tps\<rparr>,
          callLog := callLog s @ map ?msg (take k (zip es ?tps))\<rparr>" if "k \<le> length es" for k
  proof -
    have "run (calls RespondWithNextPoint (take k es)) s =
       s\<lparr>activePlan := (activePlan s)\<lparr>talkingPoints :=
          [] @ map ?on (take (length (take k es)) ?tps) @ drop (length (take k es)) ?tps\<rparr>,
         callLog := callLog s @ map ?msg (zip (take k es) ?tps)\<rparr>"
      using assms that by (intro run_respond) simp_all
    then show ?thesis using that by (simp add: zip_take_first min_absorb2)
  qed
  have 1: "\<forall>k \<le> length es. ?after k =
        s\<lparr>activePlan := (activePlan s)\<lparr>talkingPoints := map ?on (take k ?tps) @ drop k ?tps\<rparr>,
          callLog := callLog s @ map ?msg (take k (zip es ?tps))\<rparr>"
    using prefix by blast
  have 2: "\<forall>k < length es.
      respondWithNextPoint (es ! k) (?after k) =
        (?after k)\<lparr>activePlan := (activePlan (?after k))
             \<lparr>talkingPoints := (talkingPoints (activePlan (?after k)))[k := ?on (?tps ! k)]\<rparr>,
           callLog := callLog (?after k) @
             [\<lparr> msg_id = makeId (es ! k), msg_sender = NovaCall,
                msg_content = content (?tps ! k), timestamp = dateNow (es ! k) \<rparr>]\<rparr>"
  proof (intro allI impI)
    fix k assume k: "k < length es"
    then have k': "k < length ?tps" using assms(3) by simp
    have "respondWithNextPoint (es ! k) (?after k) = ?after (Suc k)"
      using k by (simp add: calls_snoc run_append)
    also have "\<dots> = s\<lparr>activePlan := (activePlan s)\<lparr>talkingPoints :=
             map ?on (take (Suc k) ?tps) @ drop (Suc k) ?tps\<rparr>,
          callLog := callLog s @ map ?msg (take (Suc k) (zip es ?tps))\<rparr>"
      using k by (intro prefix) simp
    also have "\<dots> = (?after k)\<lparr>activePlan := (activePlan (?after k))
             \<lparr>talkingPoints := (talkingPoints (activePlan (?after k)))[k := ?on (?tps ! k)]\<rparr>,
           callLog := callLog (?after k) @
             [\<lparr> msg_id = makeId (es ! k), msg_sender = NovaCall,
                msg_content = content (?tps ! k), timestamp = dateNow (es ! k) \<rparr>]\<rparr>"
      using k k' assms(3)
      by (simp add: prefix [of k] deliver_prefix_update take_Suc_conv_app_nth [of k "zip es ?tps"])
    finally show "respondWithNextPoint (es ! k) (?after k) =
        (?after k)\<lparr>activePlan := (activePlan (?after k))
             \<lparr>talkingPoints := (talkingPoints (activePlan (?after k)))[k := ?on (?tps ! k)]\<rparr>,
           callLog := callLog (?after k) @
             [\<lparr> msg_id = makeId (es ! k), msg_sender = NovaCall,
                msg_content = content (?tps ! k), timestamp = dateNow (es ! k) \<rparr>]\<rparr>" .
  qed
  have all: "talkingPoints (activePlan (run (calls RespondWithNextPoint es) s)) = map ?on ?tps"
    using prefix [of "length es"] assms(3) by simp
  have 3: "respondWithNextPoint e (run (calls RespondWithNextPoint es) s) =
     run (calls RespondWithNextPoint es) s"
    by (rule respond_done) (simp add: all list_all_iff)
  have 4: "completedTalkingPoints (run (calls RespondWithNextPoint es) s) = length ?tps"
    by (simp add: completedTalkingPoints_def all filter_map comp_def)
  show ?thesis using 1 2 3 4 by blast
qed

theorem respondWithNextPoint_in_plan_order_witness:
  "list_all (\<lambda>point. \<not> delivered point) (talkingPoints (activePlan seedState)) \<and>
   distinct (map tp_id (talkingPoints (activePlan seedState))) \<and>
   length [envAt 10, envAt 11, envAt 12] = length (talkingPoints (activePlan seedState)) \<and>
   map delivered (talkingPoints (activePlan
     (run (calls RespondWithNextPoint [envAt 10, envAt 11, envAt 12]) seedState))) =
     [True, True, True] \<and>
   map msg_content (callLog
     (run (calls RespondWithNextPoint [envAt 10, envAt 11, envAt 12]) seedState)) =
     map content (talkingPoints (activePlan seedState)) \<and>
   respondWithNextPoint (envAt 13)
     (run (calls RespondWithNextPoint [envAt 10, envAt 11, envAt 12]) seedState) =
     run (calls RespondWithNextPoint [envAt 10, envAt 11, envAt 12]) seedState \<and>
   completedTalkingPoints
     (run (calls RespondWithNextPoint [envAt 10, envAt 11, envAt 12]) seedState) = 3"
proof -
  let ?es = "[envAt 10, envAt 11, envAt 12]"
  let ?tps = "talkingPoints (activePlan seedState)"
  let ?end = "run (calls RespondWithNextPoint ?es) seedState"
  have d: "distinct (map tp_id ?tps)" by (simp add: seed_ids)
  have l: "length ?es = length ?tps" by (simp add: seed_active_len)
  note t = respondWithNextPoint_in_plan_order [OF seed_undelivered d l, of "envAt 13"]
  obtain p1 p2 p3 where tps: "?tps = [p1, p2, p3]"
    using seed_active_len by (cases ?tps; cases "tl ?tps"; cases "tl (tl ?tps)") auto
  from t have "\<forall>k \<le> length ?es.
      run (calls RespondWithNextPoint (take k ?es)) seedState =
        seedState\<lparr>activePlan := (activePlan seedState)\<lparr>talkingPoints :=
             map (\<lambda>point. point\<lparr>delivered := True\<rparr>) (take k ?tps) @ drop k ?tps\<rparr>,
          callLog := callLog seedState @
            map (\<lambda>(e, point). \<lparr> msg_id = makeId e, msg_sender = NovaCall,
                                 msg_content = content point, timestamp = dateNow e \<rparr>)
              (take k (zip ?es ?tps))\<rparr>"
    by (rule conjunct1)
  from this [rule_format, of 3] have r: "?end =
        seedState\<lparr>activePlan := (activePlan seedState)\<lparr>talkingPoints :=
             map (\<lambda>point. point\<lparr>delivered := True\<rparr>) ?tps\<rparr>,
          callLog := callLog seedState @
            map (\<lambda>(e, point). \<lparr> msg_id = makeId e, msg_sender = NovaCall,
                                 msg_content = content point, timestamp = dateNow e \<rparr>)
              (zip ?es ?tps)\<rparr>"
    by (simp add: tps)
  have a: "map delivered (talkingPoints (activePlan ?end)) = [True, True, True]"
    by (simp add: r tps)
  have b: "map msg_content (callLog ?end) = map content ?tps"
    by (simp add: r tps seed_entry_and_log)
  have c: "respondWithNextPoint (envAt 13) ?end = ?end"
    using t by blast
  have e: "completedTalkingPoints ?end = 3"
    using t seed_active_len by simp
  show ?thesis using seed_undelivered d l a b c e by blast
qed

text \<open>
  The same in general: \<open>respondWithNextPoint\<close> marks a point through
  \<open>toggleTalkingPointDelivered\<close>, which goes by identifier, so two undelivered points that
  share one are both marked by a single call.
\<close>

lemma respondWithNextPoint_shared_identifier:
  "map delivered (talkingPoints (activePlan (respondWithNextPoint e
     (s\<lparr>activePlan := (activePlan s)\<lparr>talkingPoints :=
        [\<lparr> tp_id = [0x61], content = [0x41], emphasis = High, delivered = False \<rparr>,
         \<lparr> tp_id = [0x61], content = [0x42], emphasis = Low, delivered = False \<rparr>]\<rparr>\<rparr>)))) =
   [True, True]"
  by (simp add: respondWithNextPoint_def nextTalkingPoint_def toggleTalkingPointDelivered_def
      pushLogEntry_def)

end
